theory Spec2Isabelle
  imports Complex_Main "HOL-Library.Sublist" "HOL-Library.Log_Nat"
begin

section \<open>Python values the program works on\<close>

text \<open>
  The program is \<^verbatim>\<open>lfr_analysis.py\<close>. Its three file readers open a path in text
  mode and iterate over \<^verbatim>\<open>fp.readlines()\<close>. A file is modelled by the text the
  reader delivers (a \<open>string\<close>, characters being the code points below 256); opening
  the file is not modelled. Exceptions are values: a function of the program returns
  \<open>py_error + 'a\<close>, with \<open>Inl\<close> for the exception raised.
\<close>

datatype py_error = ValueError | KeyError | ZeroDivisionError

text \<open>In Python's exception hierarchy \<^verbatim>\<open>KeyError\<close> is the subclass of
  \<^verbatim>\<open>LookupError\<close> raised by a dictionary subscript.\<close>

definition is_LookupError :: "py_error \<Rightarrow> bool" where
  "is_LookupError e = (e = KeyError)"

abbreviation NL :: char where "NL \<equiv> CHR 0x0A"
abbreviation TAB :: char where "TAB \<equiv> CHR 0x09"

subsection \<open>\<^verbatim>\<open>readlines\<close>\<close>

text \<open>\<^verbatim>\<open>fp.readlines()\<close>: the text cut after every newline, the newline kept at the
  end of its line; a last line without newline is kept when it is not empty.\<close>

fun readlines :: "string \<Rightarrow> string list" where
  "readlines [] = []"
| "readlines (c # cs) =
     (if c = NL then [c] # readlines cs
      else (case readlines cs of [] \<Rightarrow> [[c]] | l # ls \<Rightarrow> (c # l) # ls))"

text \<open>A file written as its lines, each ended by a newline.\<close>

definition unlines :: "string list \<Rightarrow> string" where
  "unlines ls = concat (map (\<lambda>l. l @ [NL]) ls)"

subsection \<open>\<^verbatim>\<open>str.strip\<close>, \<^verbatim>\<open>in\<close>, \<^verbatim>\<open>str.split\<close>, unpacking, \<^verbatim>\<open>int\<close>\<close>

text \<open>The characters below 256 for which \<^verbatim>\<open>str.isspace\<close> holds: tab, line feed,
  vertical tab, form feed, carriage return, the four separators 0x1C to 0x1F, space,
  0x85 and 0xA0.\<close>

definition py_isspace :: "char \<Rightarrow> bool" where
  "py_isspace c = (c \<in> set [CHR 0x09, CHR 0x0A, CHR 0x0B, CHR 0x0C, CHR 0x0D,
                              CHR 0x1C, CHR 0x1D, CHR 0x1E, CHR 0x1F, CHR 0x20,
                              CHR 0x85, CHR 0xA0])"

definition strip :: "string \<Rightarrow> string" where
  "strip s = rev (dropWhile py_isspace (rev (dropWhile py_isspace s)))"

text \<open>\<^verbatim>\<open>sub in s\<close> on strings: \<open>sub\<close> occurs in \<open>s\<close> as a contiguous block.\<close>

fun py_in :: "string \<Rightarrow> string \<Rightarrow> bool" where
  "py_in sub [] = (sub = [])"
| "py_in sub (c # cs) = (prefix sub (c # cs) \<or> py_in sub cs)"

text \<open>\<^verbatim>\<open>s.split(sep)\<close> with a separator given: the pieces between the occurrences of
  \<open>sep\<close>, found from the left; an empty separator raises \<^verbatim>\<open>ValueError\<close>.\<close>

fun split_at :: "string \<Rightarrow> string \<Rightarrow> string \<Rightarrow> string list" where
  "split_at sep cur [] = [rev cur]"
| "split_at sep cur (c # cs) =
     (if sep \<noteq> [] \<and> prefix sep (c # cs)
      then rev cur # split_at sep [] (drop (length sep - 1) cs)
      else split_at sep (c # cur) cs)"

definition py_split :: "string \<Rightarrow> string \<Rightarrow> py_error + string list" where
  "py_split s sep = (if sep = [] then Inl ValueError else Inr (split_at sep [] s))"

text \<open>\<^verbatim>\<open>a , b = xs.split(sep)\<close>: anything but two pieces raises \<^verbatim>\<open>ValueError\<close>.\<close>

fun unpack2 :: "py_error + string list \<Rightarrow> py_error + (string \<times> string)" where
  "unpack2 (Inl e) = Inl e"
| "unpack2 (Inr [a, b]) = Inr (a, b)"
| "unpack2 (Inr _) = Inl ValueError"

text \<open>\<^verbatim>\<open>int(s)\<close> on a string, base ten: surrounding whitespace is dropped, one sign is
  allowed, then decimal digits, single underscores allowed between two digits. Anything
  else raises \<^verbatim>\<open>ValueError\<close>. The whitespace that \<^verbatim>\<open>int\<close> drops is not that of
  \<^verbatim>\<open>str.strip\<close>: the four separators 0x1C to 0x1F are not part of it. (The limit that
  recent interpreters put on the number of digits is not modelled.)\<close>

definition int_isspace :: "char \<Rightarrow> bool" where
  "int_isspace c = (c \<in> set [CHR 0x09, CHR 0x0A, CHR 0x0B, CHR 0x0C, CHR 0x0D, CHR 0x20,
                               CHR 0x85, CHR 0xA0])"

definition int_strip :: "string \<Rightarrow> string" where
  "int_strip s = rev (dropWhile int_isspace (rev (dropWhile int_isspace s)))"

definition is_digit :: "char \<Rightarrow> bool" where
  "is_digit c = (c \<in> set ''0123456789'')"

definition digit_val :: "char \<Rightarrow> int" where
  "digit_val c = int (of_char c) - 48"

fun int_body :: "bool \<Rightarrow> string \<Rightarrow> bool" where
  "int_body prev [] = prev"
| "int_body prev (c # cs) =
     (if is_digit c then int_body True cs
      else (c = CHR ''_'' \<and> prev \<and> int_body False cs))"

fun int_value :: "int \<Rightarrow> string \<Rightarrow> int" where
  "int_value acc [] = acc"
| "int_value acc (c # cs) =
     (if is_digit c then int_value (10 * acc + digit_val c) cs else int_value acc cs)"

definition py_int :: "string \<Rightarrow> py_error + int" where
  "py_int s =
     (let t = int_strip s;
          neg = (t \<noteq> [] \<and> hd t = CHR ''-'');
          body = (if t \<noteq> [] \<and> (hd t = CHR ''-'' \<or> hd t = CHR ''+'') then tl t else t)
      in if int_body False body
         then Inr (if neg then - int_value 0 body else int_value 0 body)
         else Inl ValueError)"

subsection \<open>Floats\<close>

text \<open>A Python float is a binary64 number; it is modelled by the rational it denotes.
  Every arithmetic operation gives the exact result rounded to the nearest number with 53
  significant bits, ties to the even significand. \<open>float_exponent x\<close> is the \<open>e\<close> with
  \<open>2 ^ e \<le> x < 2 ^ (e + 1)\<close> for a positive \<open>x\<close>, so that \<open>x\<close> divided by \<open>2 ^ (e - 52)\<close>
  has 53 bits before the point. The exponent is not bounded: overflow and the subnormal
  range are reached only by sizes beyond \<open>2 ^ 1022\<close>, which no set in memory has.\<close>

definition round_half_even :: "rat \<Rightarrow> int" where
  "round_half_even x =
     (let f = \<lfloor>x\<rfloor>; d = x - of_int f
      in if d < 1 / 2 then f else if 1 / 2 < d then f + 1 else if even f then f else f + 1)"

definition float_exponent :: "rat \<Rightarrow> int" where
  "float_exponent x = (if 1 \<le> x then bitlen \<lfloor>x\<rfloor> - 1 else - bitlen (\<lceil>1 / x\<rceil> - 1))"

definition binary64 :: "rat \<Rightarrow> rat" where
  "binary64 x =
     (if x = 0 then 0
      else (let u = 2 powi (float_exponent \<bar>x\<bar> - 52)
            in sgn x * of_int (round_half_even (\<bar>x\<bar> / u)) * u))"

text \<open>True division of two sizes (\<^verbatim>\<open>int / int\<close>, correctly rounded) and the three float
  operations of line 100. A zero divisor raises \<^verbatim>\<open>ZeroDivisionError\<close>.\<close>

definition int_truediv :: "nat \<Rightarrow> nat \<Rightarrow> py_error + rat" where
  "int_truediv a b =
     (if b = 0 then Inl ZeroDivisionError else Inr (binary64 (of_nat a / of_nat b)))"

definition float_mul :: "rat \<Rightarrow> rat \<Rightarrow> rat" where
  "float_mul x y = binary64 (x * y)"

definition float_add :: "rat \<Rightarrow> rat \<Rightarrow> rat" where
  "float_add x y = binary64 (x + y)"

definition float_truediv :: "rat \<Rightarrow> rat \<Rightarrow> py_error + rat" where
  "float_truediv x y = (if y = 0 then Inl ZeroDivisionError else Inr (binary64 (x / y)))"

section \<open>\<^verbatim>\<open>graph_size_from_file\<close> (size mode)\<close>

text \<open>Lines 13 to 27. The loop carries \<open>nodes\<close> (a set of strings: the fields are not
  converted) and \<open>edges\<close>; \<^verbatim>\<open>break\<close> returns the state reached.\<close>

fun graph_size_loop ::
  "string \<Rightarrow> string list \<Rightarrow> string set \<times> nat \<Rightarrow> py_error + (string set \<times> nat)" where
  "graph_size_loop split [] (nodes, edges) = Inr (nodes, edges)"
| "graph_size_loop split (i # rest) (nodes, edges) =
     (let i = strip i in
      if \<not> py_in ''-1'' i \<and> i \<noteq> [] then
        (case unpack2 (py_split i split) of
           Inl e \<Rightarrow> Inl e
         | Inr (a, b) \<Rightarrow> graph_size_loop split rest (insert b (insert a nodes), edges + 1))
      else Inr (nodes, edges))"

definition graph_size_from_file :: "string \<Rightarrow> string \<Rightarrow> py_error + (nat \<times> nat)" where
  "graph_size_from_file fp split =
     (case graph_size_loop split (readlines fp) ({}, 0) of
        Inl e \<Rightarrow> Inl e
      | Inr (nodes, edges) \<Rightarrow> Inr (card nodes, edges))"

section \<open>\<^verbatim>\<open>true_community_helper\<close> and \<^verbatim>\<open>get_true_community\<close>\<close>

text \<open>Lines 39 to 43 of the loop body: the stripped line is split at the tab, unpacked
  into two fields, and both are converted.\<close>

definition parse_true_line :: "string \<Rightarrow> py_error + (int \<times> int)" where
  "parse_true_line line =
     (case unpack2 (py_split line [TAB]) of
        Inl e \<Rightarrow> Inl e
      | Inr (a, b) \<Rightarrow>
          (case py_int a of
             Inl e \<Rightarrow> Inl e
           | Inr a \<Rightarrow> (case py_int b of Inl e \<Rightarrow> Inl e | Inr b \<Rightarrow> Inr (a, b))))"

type_synonym index = "(int \<rightharpoonup> int) \<times> (int \<rightharpoonup> int set)"

text \<open>Lines 44 to 48: the two dictionaries after one assignment.\<close>

fun add_assignment :: "int \<times> int \<Rightarrow> index \<Rightarrow> index" where
  "add_assignment (a, b) (node_to_com, com_to_nodes) =
     (node_to_com(a \<mapsto> b),
      (case com_to_nodes b of
         Some s \<Rightarrow> com_to_nodes(b \<mapsto> insert a s)
       | None \<Rightarrow> com_to_nodes(b \<mapsto> {a})))"

text \<open>Lines 38 to 51. The test of line 40 is on \<open>i\<close>, the line as read, not on the
  stripped \<open>line\<close>.\<close>

fun true_community_loop :: "string list \<Rightarrow> index \<Rightarrow> py_error + index" where
  "true_community_loop [] ix = Inr ix"
| "true_community_loop (i # rest) ix =
     (let line = strip i in
      if i \<noteq> [] then
        (case parse_true_line line of
           Inl e \<Rightarrow> Inl e
         | Inr r \<Rightarrow> true_community_loop rest (add_assignment r ix))
      else Inr ix)"

definition true_community_helper :: "string \<Rightarrow> py_error + index" where
  "true_community_helper fp = true_community_loop (readlines fp) (Map.empty, Map.empty)"

text \<open>Lines 62 to 64: two dictionary subscripts, each raising \<^verbatim>\<open>KeyError\<close> on a
  missing key.\<close>

definition get_true_community ::
  "(int \<rightharpoonup> int) \<Rightarrow> (int \<rightharpoonup> int set) \<Rightarrow> int \<Rightarrow> py_error + int set" where
  "get_true_community node_to_com com_to_nodes q_node =
     (case node_to_com q_node of
        None \<Rightarrow> Inl KeyError
      | Some com \<Rightarrow> (case com_to_nodes com of None \<Rightarrow> Inl KeyError | Some s \<Rightarrow> Inr s))"

section \<open>\<^verbatim>\<open>LFR_error_stats\<close> (membership mode and the metrics)\<close>

text \<open>Lines 76 to 84: the sentinel test is on the line as read; the fields are
  converted to integers.\<close>

fun prop_com_loop :: "string list \<Rightarrow> int set \<Rightarrow> py_error + int set" where
  "prop_com_loop [] prop_com = Inr prop_com"
| "prop_com_loop (i # rest) prop_com =
     (if \<not> py_in ''-1'' i then
        (case unpack2 (py_split (strip i) '' '') of
           Inl e \<Rightarrow> Inl e
         | Inr (a, b) \<Rightarrow>
             (case py_int a of
                Inl e \<Rightarrow> Inl e
              | Inr a \<Rightarrow>
                  (case py_int b of
                     Inl e \<Rightarrow> Inl e
                   | Inr b \<Rightarrow> prop_com_loop rest (insert b (insert a prop_com)))))
      else Inr prop_com)"

text \<open>Lines 86 to 102. \<open>true_com\<close> is a Python set, hence finite. The result is
  (symmetric difference, precision, recall, F1, size of the proposed community). In line
  100 \<^verbatim>\<open>2 * per * rec\<close> is two multiplications, from the left, and each of the four
  operations of the line rounds.\<close>

definition LFR_error_stats ::
  "string \<Rightarrow> int set \<Rightarrow> int \<Rightarrow> py_error + (int set \<times> rat \<times> rat \<times> rat \<times> nat)" where
  "LFR_error_stats fp true_com LFR =
     (case prop_com_loop (readlines fp) {} of
        Inl e \<Rightarrow> Inl e
      | Inr prop_com \<Rightarrow>
          (let sym_diff = (true_com - prop_com) \<union> (prop_com - true_com);
               full_net = {1..LFR};
               true_positive = true_com \<inter> prop_com;
               true_negative = full_net - true_com - prop_com;
               false_negative = true_com - prop_com;
               false_positive = prop_com - true_com
           in if card prop_com = 0 then Inr (sym_diff, 0, 0, 0, 0)
              else
                (case int_truediv (card true_positive)
                        (card true_positive + card false_positive) of
                   Inl e \<Rightarrow> Inl e
                 | Inr per \<Rightarrow>
                     (case int_truediv (card true_positive)
                             (card true_positive + card false_negative) of
                        Inl e \<Rightarrow> Inl e
                      | Inr rec \<Rightarrow>
                          (case float_truediv (float_mul (float_mul 2 per) rec)
                                  (float_add per rec) of
                             Inl e \<Rightarrow> Inl e
                           | Inr f1 \<Rightarrow> Inr (sym_diff, per, rec, f1, card prop_com))))))"

section \<open>The metrics as the specification writes them\<close>

text \<open>The quotients of the specification for precision and recall (section 4.3, step 6),
  on a true community \<open>T\<close> and a proposed community \<open>P\<close>, as exact rationals; the
  function returns them as floats, that is rounded once. \<open>spec_f1\<close> is the F1 of step 7
  on two floats, in float arithmetic.\<close>

definition spec_precision :: "int set \<Rightarrow> int set \<Rightarrow> rat" where
  "spec_precision T P = of_nat (card (T \<inter> P)) / of_nat (card (T \<inter> P) + card (P - T))"

definition spec_recall :: "int set \<Rightarrow> int set \<Rightarrow> rat" where
  "spec_recall T P = of_nat (card (T \<inter> P)) / of_nat (card (T \<inter> P) + card (T - P))"

definition spec_f1 :: "rat \<Rightarrow> rat \<Rightarrow> rat" where
  "spec_f1 precision recall =
     binary64 (binary64 (binary64 (2 * precision) * recall) / binary64 (precision + recall))"

section \<open>What the ground-truth loop has seen\<close>

text \<open>The assignments that the loop of \<open>true_community_helper\<close> performs on its way
  through the lines, in order. A node is seen during index construction when it is the
  first component of one of them.\<close>

fun true_records :: "string list \<Rightarrow> (int \<times> int) list" where
  "true_records [] = []"
| "true_records (i # rest) =
     (if i \<noteq> [] then
        (case parse_true_line (strip i) of Inl e \<Rightarrow> [] | Inr r \<Rightarrow> r # true_records rest)
      else [])"

text \<open>No node is listed under two different community ids.\<close>

definition single_community :: "(int \<times> int) list \<Rightarrow> bool" where
  "single_community rs = (\<forall>(a, b)\<in>set rs. \<forall>(a', b')\<in>set rs. a = a' \<longrightarrow> b = b')"

text \<open>The ground-truth file of the specification's scenario, without and with the
  blank line at its end, and a file that lists node 1 under two community ids.\<close>

definition truth_lines :: "string list" where
  "truth_lines = [''1'' @ [TAB] @ ''5'', ''2'' @ [TAB] @ ''5'', ''3'' @ [TAB] @ ''7'']"

definition truth_file :: string where
  "truth_file = unlines truth_lines"

definition truth_file_blank :: string where
  "truth_file_blank = unlines (truth_lines @ [[]])"

definition relisted_file :: string where
  "relisted_file = unlines [''1'' @ [TAB] @ ''5'', ''1'' @ [TAB] @ ''7'']"

section \<open>Facts about the readers\<close>

subsection \<open>Lines\<close>

lemma readlines_no_empty_line: "[] \<notin> set (readlines t)"
  by (induction t) (auto split: list.splits)

lemma readlines_line: "NL \<notin> set l \<Longrightarrow> readlines (l @ NL # t) = (l @ [NL]) # readlines t"
  by (induction l) auto

lemma readlines_unlines:
  "\<forall>l\<in>set ls. NL \<notin> set l \<Longrightarrow>
   readlines (unlines ls @ t) = map (\<lambda>l. l @ [NL]) ls @ readlines t"
  by (induction ls) (auto simp: unlines_def readlines_line)

subsection \<open>The sentinel\<close>

lemma py_in_sublist: "py_in sub s = sublist sub s"
  by (induction s) (auto simp: sublist_Cons_right)

lemma strip_keeps:
  "\<not> py_isspace c \<Longrightarrow> \<not> py_isspace d \<Longrightarrow>
   strip (ps @ c # d # ss) =
     dropWhile py_isspace ps @ c # d # rev (dropWhile py_isspace (rev ss))"
  by (simp add: strip_def dropWhile_append3)

text \<open>Neither character of the marker is whitespace, so stripping keeps it.\<close>

lemma py_in_strip: "py_in ''-1'' s \<Longrightarrow> py_in ''-1'' (strip s)"
proof -
  assume "py_in ''-1'' s"
  then obtain ps ss where s: "s = ps @ ''-1'' @ ss"
    by (auto simp: py_in_sublist sublist_def)
  have "strip s = dropWhile py_isspace ps @ ''-1'' @ rev (dropWhile py_isspace (rev ss))"
    unfolding s by (simp add: strip_keeps py_isspace_def)
  then show ?thesis
    by (simp only: py_in_sublist sublist_def) blast
qed

lemma prop_com_loop_finite: "prop_com_loop ls acc = Inr P \<Longrightarrow> finite acc \<Longrightarrow> finite P"
  by (induction ls arbitrary: acc) (auto split: if_splits sum.splits prod.splits)

lemma prop_com_loop_sentinel:
  "py_in ''-1'' s \<Longrightarrow> prop_com_loop (pre @ s # rest) acc = prop_com_loop pre acc"
  by (induction pre arbitrary: acc) (auto split: sum.splits prod.splits)

lemma graph_size_loop_sentinel:
  "py_in ''-1'' s \<Longrightarrow>
   graph_size_loop split (pre @ s # rest) (nodes, edges) =
     graph_size_loop split pre (nodes, edges)"
  by (induction pre arbitrary: nodes edges)
     (auto simp: py_in_strip Let_def split: sum.splits prod.splits)

lemma py_in_append: "py_in sub s \<Longrightarrow> py_in sub (s @ t)"
  by (auto simp: py_in_sublist sublist_def) (metis append.assoc)

lemma readlines_sentinel_file:
  assumes "\<forall>l\<in>set pre. NL \<notin> set l" and "NL \<notin> set s"
  shows "readlines (unlines (pre @ [s]) @ rest) =
           map (\<lambda>l. l @ [NL]) pre @ (s @ [NL]) # readlines rest"
    and "readlines (unlines pre) = map (\<lambda>l. l @ [NL]) pre"
  using assms readlines_unlines [of "pre @ [s]" rest] readlines_unlines [of pre "[]"]
  by simp_all

subsection \<open>Rounding\<close>

lemma round_half_even_ge: "\<lfloor>x\<rfloor> \<le> round_half_even x"
  by (simp add: round_half_even_def Let_def)

lemma float_exponent_le:
  assumes "0 < x"
  shows "2 powi float_exponent x \<le> x"
proof (cases "1 \<le> x")
  case True
  then have n: "0 < \<lfloor>x\<rfloor>" by simp
  from bitlen_bounds [OF n] have b: "2 ^ nat (bitlen \<lfloor>x\<rfloor> - 1) \<le> \<lfloor>x\<rfloor>" by simp
  have "1 \<le> bitlen \<lfloor>x\<rfloor>"
    using n bitlen_eq_zero_iff [of "\<lfloor>x\<rfloor>"] bitlen_nonneg [of "\<lfloor>x\<rfloor>"] by linarith
  then have "(2 :: rat) powi (bitlen \<lfloor>x\<rfloor> - 1) = 2 ^ nat (bitlen \<lfloor>x\<rfloor> - 1)"
    by (simp add: power_int_def)
  also have "\<dots> = of_int (2 ^ nat (bitlen \<lfloor>x\<rfloor> - 1))" by simp
  also have "\<dots> \<le> of_int \<lfloor>x\<rfloor>" using b by (simp only: of_int_le_iff)
  also have "\<dots> \<le> x" by simp
  finally show ?thesis using True by (simp add: float_exponent_def)
next
  case False
  let ?k = "\<lceil>1 / x\<rceil> - 1"
  let ?j = "bitlen ?k"
  from False assms have "1 < 1 / x" by simp
  then have k: "0 < ?k" by linarith
  from bitlen_bounds [OF k] have "?k < 2 ^ nat ?j" by simp
  then have "\<lceil>1 / x\<rceil> \<le> 2 ^ nat ?j" by simp
  then have c: "of_int \<lceil>1 / x\<rceil> \<le> (of_int (2 ^ nat ?j) :: rat)"
    by (simp only: of_int_le_iff)
  have "1 / x \<le> of_int \<lceil>1 / x\<rceil>" by (rule le_of_int_ceiling)
  also note c
  also have "(of_int (2 ^ nat ?j) :: rat) = 2 ^ nat ?j" by simp
  finally have "1 / x \<le> 2 ^ nat ?j" .
  then have "1 / 2 ^ nat ?j \<le> x" using assms
    by (simp add: field_simps)
  moreover have "(2 :: rat) powi (- ?j) = 1 / 2 ^ nat ?j"
    using bitlen_nonneg [of ?k] by (simp add: power_int_def field_simps)
  ultimately show ?thesis using False by (simp add: float_exponent_def)
qed

text \<open>Rounding keeps a positive number positive: its 53-bit significand is at least
  \<open>2 ^ 52\<close>.\<close>

lemma binary64_pos:
  assumes "0 < x"
  shows "0 < binary64 x"
proof -
  let ?e = "float_exponent x"
  let ?u = "(2 :: rat) powi (?e - 52)"
  have u: "0 < ?u" by simp
  have "2 powi ?e = ?u * 2 ^ 52"
    by (simp add: power_int_diff)
  with float_exponent_le [OF assms] have "?u * 2 ^ 52 \<le> x" by simp
  then have "2 ^ 52 \<le> x / ?u" using u by (simp add: field_simps)
  moreover have "(1 :: rat) \<le> 2 ^ 52" by simp
  ultimately have "1 \<le> x / ?u" by (rule order_trans [rotated])
  then have "1 \<le> \<lfloor>x / ?u\<rfloor>" by simp
  with round_half_even_ge [of "x / ?u"] have "0 < round_half_even (x / ?u)" by linarith
  then have "0 < of_int (round_half_even (x / ?u)) * ?u" using u by simp
  then show ?thesis using assms by (simp add: binary64_def Let_def)
qed

lemma binary64_0: "binary64 0 = 0"
  by (simp add: binary64_def)

lemma binary64_1: "binary64 1 = 1"
  by code_simp

lemma binary64_2: "binary64 2 = 2"
  by code_simp

text \<open>The floats of the scenario of the specification: the double nearest to 2/3, which
  Python prints as 0.6666666666666666, and its F1 with itself.\<close>

lemma binary64_two_thirds: "binary64 (2 / 3) = 6004799503160661 / 9007199254740992"
  by code_simp

lemma spec_f1_two_thirds: "spec_f1 (binary64 (2 / 3)) (binary64 (2 / 3)) = binary64 (2 / 3)"
  by code_simp

text \<open>F1 is not the rounding of the exact F1: with precision 1 and recall 1/5 the exact
  value is 1/3, and the three roundings give the double above the one nearest to 1/3
  (Python prints 0.33333333333333337).\<close>

lemma spec_f1_not_exact:
  "spec_f1 (binary64 1) (binary64 (1 / 5)) = 3002399751580331 / 9007199254740992"
  "binary64 (1 / 3) = 6004799503160661 / 18014398509481984"
  by code_simp+

section \<open>The sentinel ends both read modes\<close>

text \<open>
  Claim C9. A line that contains the marker \<^verbatim>\<open>-1\<close> ends the reading in both modes:
  whatever text follows the sentinel line, membership mode and size mode give what they
  give on the file cut before the sentinel line. For the file with the lines \<^verbatim>\<open>1 2\<close>,
  \<^verbatim>\<open>1 3\<close>, \<^verbatim>\<open>-1\<close>, membership mode yields \<open>{1, 2, 3}\<close> and size mode \<open>(3, 2)\<close>.
\<close>

theorem sentinel_stops_reading:
  "(py_in ''-1'' s \<and> NL \<notin> set s \<and> (\<forall>l\<in>set pre. NL \<notin> set l) \<longrightarrow>
      prop_com_loop (readlines (unlines (pre @ [s]) @ rest)) {} =
        prop_com_loop (readlines (unlines pre)) {} \<and>
      graph_size_from_file (unlines (pre @ [s]) @ rest) split =
        graph_size_from_file (unlines pre) split) \<and>
   prop_com_loop (readlines (unlines [''1 2'', ''1 3'', ''-1''])) {} = Inr {1, 2, 3} \<and>
   graph_size_from_file (unlines [''1 2'', ''1 3'', ''-1'']) '' '' = Inr (3, 2)"
proof (intro conjI impI)
  assume h: "py_in ''-1'' s \<and> NL \<notin> set s \<and> (\<forall>l\<in>set pre. NL \<notin> set l)"
  then have mark: "py_in ''-1'' (s @ [NL])"
    by (simp add: py_in_append)
  from h have "\<forall>l\<in>set pre. NL \<notin> set l" and "NL \<notin> set s"
    by simp_all
  note lines = readlines_sentinel_file [OF this]
  show "prop_com_loop (readlines (unlines (pre @ [s]) @ rest)) {} =
          prop_com_loop (readlines (unlines pre)) {}"
    unfolding lines by (rule prop_com_loop_sentinel [OF mark])
  show "graph_size_from_file (unlines (pre @ [s]) @ rest) split =
          graph_size_from_file (unlines pre) split"
    unfolding graph_size_from_file_def lines
    by (simp only: graph_size_loop_sentinel [OF mark])
next
  show "prop_com_loop (readlines (unlines [''1 2'', ''1 3'', ''-1''])) {} = Inr {1, 2, 3}"
    by (simp add: unlines_def strip_def py_isspace_def py_split_def py_int_def int_strip_def int_isspace_def
        is_digit_def digit_val_def insert_commute)
next
  show "graph_size_from_file (unlines [''1 2'', ''1 3'', ''-1'']) '' '' = Inr (3, 2)"
    by (simp add: graph_size_from_file_def unlines_def strip_def py_isspace_def
        py_split_def card_insert_if)
qed

theorem sentinel_stops_reading_witness:
  "py_in ''-1'' ''3 -1'' \<and> NL \<notin> set ''3 -1'' \<and> NL \<notin> set ''1 2'' \<and> NL \<notin> set ''2 3'' \<and>
   prop_com_loop (readlines (unlines [''1 2'', ''2 3'', ''3 -1''] @ ''4 5'')) {} =
     prop_com_loop (readlines (unlines [''1 2'', ''2 3''])) {} \<and>
   graph_size_from_file (unlines [''1 2'', ''2 3'', ''3 -1''] @ ''4 5'') '' '' =
     graph_size_from_file (unlines [''1 2'', ''2 3'']) '' ''"
proof -
  have h: "py_in ''-1'' ''3 -1'' \<and> NL \<notin> set ''3 -1'' \<and>
           (\<forall>l\<in>set [''1 2'', ''2 3'']. NL \<notin> set l)"
    by simp
  from h sentinel_stops_reading [of "''3 -1''" "[''1 2'', ''2 3'']" "''4 5''" "'' ''"]
  show ?thesis by simp
qed

section \<open>The metrics\<close>

text \<open>
  Claim C10. The universe size has no influence on the result: the set of true negatives
  is built from it and then never used. (The memory that \<^verbatim>\<open>set(range(1, LFR+1))\<close>
  takes is outside the model.)
\<close>

theorem LFR_error_stats_universe_independent:
  "LFR_error_stats fp true_com n1 = LFR_error_stats fp true_com n2"
  by (cases "prop_com_loop (readlines fp) {}") (simp_all add: LFR_error_stats_def Let_def)

text \<open>
  Claim C3. When the file yields the empty proposed community, the result is
  \<open>(true_com, 0, 0, 0, 0)\<close> whatever the true community is, and nothing is raised.
\<close>

theorem LFR_error_stats_empty_proposed:
  assumes "prop_com_loop (readlines fp) {} = Inr {}"
  shows "LFR_error_stats fp true_com LFR = Inr (true_com, 0, 0, 0, 0)"
  using assms by (simp add: LFR_error_stats_def)

theorem LFR_error_stats_empty_proposed_witness:
  "prop_com_loop (readlines (unlines [''-1''])) {} = Inr {} \<and>
   LFR_error_stats (unlines [''-1'']) {1, 2, 3} 10000 = Inr ({1, 2, 3}, 0, 0, 0, 0)"
proof -
  have h: "prop_com_loop (readlines (unlines [''-1''])) {} = Inr {}"
    by (simp add: unlines_def)
  from h LFR_error_stats_empty_proposed [OF h, of "{1, 2, 3}" 10000]
  show ?thesis by simp
qed

text \<open>
  Claim C4. When the proposed community \<open>P\<close> is not empty and the true community is
  empty, the function raises \<^verbatim>\<open>ZeroDivisionError\<close>, and it does so at the recall: the
  division for the precision succeeds (its divisor is the size of \<open>P\<close>), the divisor of
  the recall is zero.
\<close>

theorem LFR_error_stats_empty_true:
  assumes "prop_com_loop (readlines fp) {} = Inr P" and "P \<noteq> {}"
  shows "LFR_error_stats fp {} LFR = Inl ZeroDivisionError \<and>
         int_truediv (card ({} \<inter> P)) (card ({} \<inter> P) + card (P - {})) = Inr 0 \<and>
         int_truediv (card ({} \<inter> P)) (card ({} \<inter> P) + card ({} - P)) =
           Inl ZeroDivisionError"
proof -
  have "finite P" using assms(1) by (rule prop_com_loop_finite) simp
  with assms(2) have "card P \<noteq> 0" by simp
  with assms(1) show ?thesis
    by (simp add: LFR_error_stats_def int_truediv_def binary64_0)
qed

theorem LFR_error_stats_empty_true_witness:
  "prop_com_loop (readlines (unlines [''7 8'', ''8 9'', ''-1''])) {} = Inr {7, 8, 9} \<and>
   {7, 8, 9} \<noteq> ({} :: int set) \<and>
   LFR_error_stats (unlines [''7 8'', ''8 9'', ''-1'']) {} 10000 = Inl ZeroDivisionError"
proof -
  have h: "prop_com_loop (readlines (unlines [''7 8'', ''8 9'', ''-1''])) {} = Inr {7, 8, 9}"
    by (simp add: unlines_def strip_def py_isspace_def py_split_def py_int_def int_strip_def int_isspace_def
        is_digit_def digit_val_def insert_commute)
  have n: "{7, 8, 9} \<noteq> ({} :: int set)" by simp
  from h n LFR_error_stats_empty_true [OF h n, of 10000]
  show ?thesis by simp
qed

text \<open>
  Claim C7, as amended. When the file yields a non-empty proposed community and the true
  community is the same set, precision, recall and F1 are 1 and the symmetric difference
  is empty. The claim as stated fails when both sets are empty: the guard of line 94
  returns the metrics 0 there.
\<close>

theorem LFR_error_stats_equal_sets:
  assumes "prop_com_loop (readlines fp) {} = Inr P" and "P \<noteq> {}"
  shows "LFR_error_stats fp P LFR = Inr ({}, 1, 1, 1, card P)"
proof -
  have "finite P" using assms(1) by (rule prop_com_loop_finite) simp
  with assms(2) have "card P \<noteq> 0" by simp
  with assms(1) show ?thesis
    by (simp add: LFR_error_stats_def int_truediv_def float_truediv_def float_mul_def
        float_add_def binary64_1 binary64_2)
qed

theorem LFR_error_stats_equal_sets_witness:
  "prop_com_loop (readlines (unlines [''1 2'', ''1 3'', ''-1''])) {} = Inr {1, 2, 3} \<and>
   {1, 2, 3} \<noteq> ({} :: int set) \<and>
   LFR_error_stats (unlines [''1 2'', ''1 3'', ''-1'']) {1, 2, 3} 10000 = Inr ({}, 1, 1, 1, 3)"
proof -
  have h: "prop_com_loop (readlines (unlines [''1 2'', ''1 3'', ''-1''])) {} = Inr {1, 2, 3}"
    by (simp add: unlines_def strip_def py_isspace_def py_split_def py_int_def int_strip_def int_isspace_def
        is_digit_def digit_val_def insert_commute)
  have n: "{1, 2, 3} \<noteq> ({} :: int set)" by simp
  from h n LFR_error_stats_equal_sets [OF h n, of 10000]
  show ?thesis by simp
qed

text \<open>The claim C7 as stated, for every file whose proposed community equals the true
  community, fails when both are empty: the guard of line 94 returns the metrics 0.\<close>

theorem LFR_error_stats_equal_sets_counterexample:
  "prop_com_loop (readlines (unlines [''-1''])) {} = Inr {} \<and>
   LFR_error_stats (unlines [''-1'']) {} 10000 = Inr ({}, 0, 0, 0, 0) \<and>
   LFR_error_stats (unlines [''-1'']) {} 10000 \<noteq> Inr ({}, 1, 1, 1, 0)"
  by (simp add: LFR_error_stats_def unlines_def)

text \<open>
  Claim C8, as amended. When the file yields the proposed community \<open>P\<close> and the true
  community \<open>T\<close> shares a node with it, the function returns the symmetric difference,
  the precision \<open>|T \<inter> P| / (|T \<inter> P| + |P - T|)\<close> and the recall
  \<open>|T \<inter> P| / (|T \<inter> P| + |T - P|)\<close>, each as the float of the quotient, the F1 that
  line 100 computes from these two floats, and the size of \<open>P\<close>. For \<open>T = {1, 2, 3}\<close>,
  \<open>P = {2, 3, 4}\<close> and universe size 10 these are \<open>{1, 4}\<close>, three times the float of
  2/3, and 3. The claim as stated, for every non-empty \<open>P\<close> and every \<open>T\<close>, fails: with
  \<open>T\<close> empty nothing is returned.
\<close>

theorem LFR_error_stats_metrics:
  assumes "prop_com_loop (readlines fp) {} = Inr P" and "T \<inter> P \<noteq> {}"
  shows "LFR_error_stats fp T LFR =
           Inr ((T - P) \<union> (P - T),
                binary64 (spec_precision T P),
                binary64 (spec_recall T P),
                spec_f1 (binary64 (spec_precision T P)) (binary64 (spec_recall T P)),
                card P)"
proof -
  let ?per = "binary64 (spec_precision T P)"
  let ?rec = "binary64 (spec_recall T P)"
  have fin: "finite P" using assms(1) by (rule prop_com_loop_finite) simp
  with assms(2) have tp: "card (T \<inter> P) > 0" by (simp add: card_gt_0_iff)
  from fin assms(2) have sz: "card P \<noteq> 0" by auto
  have "spec_precision T P > 0" and "spec_recall T P > 0"
    using tp by (simp_all add: spec_precision_def spec_recall_def)
  then have "?per > 0" and "?rec > 0"
    by (simp_all add: binary64_pos)
  then have "?per + ?rec > 0" by linarith
  then have "binary64 (?per + ?rec) \<noteq> 0"
    using binary64_pos [of "?per + ?rec"] by simp
  then have f1: "float_truediv (float_mul (float_mul 2 ?per) ?rec) (float_add ?per ?rec) =
                   Inr (spec_f1 ?per ?rec)"
    by (simp add: float_truediv_def float_mul_def float_add_def spec_f1_def)
  have per: "int_truediv (card (T \<inter> P)) (card (T \<inter> P) + card (P - T)) = Inr ?per"
    using tp by (simp add: int_truediv_def spec_precision_def)
  have rec: "int_truediv (card (T \<inter> P)) (card (T \<inter> P) + card (T - P)) = Inr ?rec"
    using tp by (simp add: int_truediv_def spec_recall_def)
  show ?thesis
    using sz assms(1) by (simp add: LFR_error_stats_def Let_def per rec f1)
qed

theorem LFR_error_stats_metrics_witness:
  "prop_com_loop (readlines (unlines [''2 3'', ''3 4'', ''-1''])) {} = Inr {2, 3, 4} \<and>
   {1, 2, 3} \<inter> {2, 3, 4} \<noteq> ({} :: int set) \<and>
   LFR_error_stats (unlines [''2 3'', ''3 4'', ''-1'']) {1, 2, 3} 10 =
     Inr ({1, 4}, binary64 (2 / 3), binary64 (2 / 3), binary64 (2 / 3), 3) \<and>
   binary64 (2 / 3) = 6004799503160661 / 9007199254740992"
proof -
  have h: "prop_com_loop (readlines (unlines [''2 3'', ''3 4'', ''-1''])) {} = Inr {2, 3, 4}"
    by (simp add: unlines_def strip_def py_isspace_def py_split_def py_int_def int_strip_def
        int_isspace_def is_digit_def digit_val_def insert_commute)
  have n: "{1, 2, 3} \<inter> {2, 3, 4} \<noteq> ({} :: int set)" by simp
  have v: "spec_precision {1, 2, 3} {2, 3, 4} = 2 / 3" "spec_recall {1, 2, 3} {2, 3, 4} = 2 / 3"
    by (simp_all add: spec_precision_def spec_recall_def card_insert_if insert_Diff_if)
  have d: "{1, 2, 3} - {2, 3, 4} \<union> ({2, 3, 4} - {1, 2, 3}) = ({1, 4} :: int set)"
    by (simp add: insert_Diff_if insert_commute)
  have c: "card {2, 3, 4 :: int} = 3" by simp
  from LFR_error_stats_metrics [OF h n, of 10]
  have "LFR_error_stats (unlines [''2 3'', ''3 4'', ''-1'']) {1, 2, 3} 10 =
     Inr ({1, 4}, binary64 (2 / 3), binary64 (2 / 3), binary64 (2 / 3), 3)"
    unfolding v d c spec_f1_two_thirds .
  with h n binary64_two_thirds show ?thesis by blast
qed

text \<open>The claim C8 as stated, for every non-empty proposed community and every true
  community, fails for the empty true community: the recall is not computed and nothing
  is returned.\<close>

theorem LFR_error_stats_metrics_counterexample:
  "prop_com_loop (readlines (unlines [''4 4'', ''-1''])) {} = Inr {4} \<and>
   LFR_error_stats (unlines [''4 4'', ''-1'']) {} 10 = Inl ZeroDivisionError"
  by (simp add: LFR_error_stats_def unlines_def strip_def py_isspace_def py_split_def
      py_int_def int_strip_def int_isspace_def is_digit_def digit_val_def int_truediv_def
      binary64_0)

text \<open>
  Claim C2. The claim asks for precision, recall and F1 equal to 0 when the two sets are
  non-empty and disjoint. On the file with the lines \<^verbatim>\<open>4 5\<close>, \<^verbatim>\<open>-1\<close> and the true
  community \<open>{1, 2, 3}\<close> the function raises \<^verbatim>\<open>ZeroDivisionError\<close> instead: precision
  and recall are both 0, and line 100 divides by their sum.
\<close>

theorem LFR_error_stats_disjoint_fails:
  "prop_com_loop (readlines (unlines [''4 5'', ''-1''])) {} = Inr {4, 5} \<and>
   LFR_error_stats (unlines [''4 5'', ''-1'']) {1, 2, 3} 10000 = Inl ZeroDivisionError"
  by (simp add: LFR_error_stats_def unlines_def strip_def py_isspace_def py_split_def
      py_int_def int_strip_def int_isspace_def is_digit_def digit_val_def int_truediv_def
      float_truediv_def float_mul_def float_add_def binary64_0
      card_insert_if insert_Diff_if insert_commute)

text \<open>The same holds for every pair of disjoint sets with a non-empty proposed
  community: the function never returns there.\<close>

lemma LFR_error_stats_disjoint_raises:
  assumes "prop_com_loop (readlines fp) {} = Inr P" and "P \<noteq> {}" and "T \<inter> P = {}"
  shows "LFR_error_stats fp T LFR = Inl ZeroDivisionError"
proof -
  have "finite P" using assms(1) by (rule prop_com_loop_finite) simp
  with assms(2) have "card P \<noteq> 0" by simp
  with assms(1,3) show ?thesis
    by (simp add: LFR_error_stats_def int_truediv_def float_truediv_def float_mul_def
        float_add_def binary64_0 Let_def)
qed

section \<open>The ground-truth index\<close>

lemmas truth_eval =
  truth_file_def truth_file_blank_def truth_lines_def relisted_file_def
  true_community_helper_def unlines_def strip_def py_isspace_def py_split_def py_int_def int_strip_def int_isspace_def
  is_digit_def digit_val_def parse_true_line_def

subsection \<open>A blank line\<close>

lemma py_int_error: "py_int s = Inl e \<Longrightarrow> e = ValueError"
  by (auto simp: py_int_def int_strip_def int_isspace_def Let_def split: if_splits)

lemma unpack2_split_error: "unpack2 (py_split s sep) = Inl e \<Longrightarrow> e = ValueError"
  by (cases "py_split s sep" rule: unpack2.cases) (auto simp: py_split_def split: if_splits)

lemma parse_true_line_error: "parse_true_line l = Inl e \<Longrightarrow> e = ValueError"
  by (auto simp: parse_true_line_def split: sum.splits prod.splits
      dest: py_int_error unpack2_split_error)

lemma parse_true_line_blank: "parse_true_line [] = Inl ValueError"
  by (simp add: parse_true_line_def py_split_def)

lemma true_community_loop_blank:
  "[] \<notin> set ls \<Longrightarrow> i \<in> set ls \<Longrightarrow> strip i = [] \<Longrightarrow>
   true_community_loop ls ix = Inl ValueError"
  by (induction ls arbitrary: ix)
     (auto simp: Let_def parse_true_line_blank split: sum.splits dest: parse_true_line_error)

text \<open>
  Claim C1. The claim has the parsing stop at the first blank line, so that the file with
  the lines \<^verbatim>\<open>1<TAB>5\<close>, \<^verbatim>\<open>2<TAB>5\<close>, \<^verbatim>\<open>3<TAB>7\<close> and a blank line gives an index.
  On that file the function raises \<^verbatim>\<open>ValueError\<close>: line 40 tests \<open>i\<close>, the line as
  read, which holds at least its newline, so the \<^verbatim>\<open>break\<close> is never reached and the
  blank line is split into one field.
\<close>

theorem true_community_helper_blank_line:
  "true_community_helper truth_file_blank = Inl ValueError"
  by (simp add: truth_eval)

text \<open>It is so for every file with a line of whitespace only; and without the blank line
  the scenario gives what the claim says.\<close>

lemma true_community_helper_never_stops:
  "i \<in> set (readlines fp) \<Longrightarrow> strip i = [] \<Longrightarrow> true_community_helper fp = Inl ValueError"
  unfolding true_community_helper_def
  by (rule true_community_loop_blank [OF readlines_no_empty_line])

lemma true_community_helper_truth_file:
  "true_community_helper truth_file =
     Inr ([1 \<mapsto> 5, 2 \<mapsto> 5, 3 \<mapsto> 7], [5 \<mapsto> {1, 2}, 7 \<mapsto> {3}])"
  by (simp add: truth_eval insert_commute)

lemma true_records_truth_file:
  "true_records (readlines truth_file) = [(1, 5), (2, 5), (3, 7)]"
  by (simp add: truth_eval)

lemma get_true_community_truth_file:
  "get_true_community [1 \<mapsto> 5, 2 \<mapsto> 5, 3 \<mapsto> 7] [5 \<mapsto> {1, 2}, 7 \<mapsto> {3}] 1 = Inr {1, 2}"
  "get_true_community [1 \<mapsto> 5, 2 \<mapsto> 5, 3 \<mapsto> 7] [5 \<mapsto> {1, 2}, 7 \<mapsto> {3}] 3 = Inr {3}"
  by (simp_all add: get_true_community_def)

subsection \<open>The index in terms of the assignments\<close>

lemma true_community_loop_records:
  "true_community_loop ls ix = Inr ix' \<Longrightarrow> ix' = fold add_assignment (true_records ls) ix"
  by (induction ls arbitrary: ix) (auto simp: Let_def split: if_splits sum.splits)

text \<open>The later assignment of a node wins in \<open>node_to_com\<close>; \<open>com_to_nodes\<close> collects
  under each id every node ever assigned to it.\<close>

lemma fold_add_assignment:
  "fold add_assignment rs (Map.empty, Map.empty) =
     (map_of (rev rs), \<lambda>c. if c \<in> snd ` set rs then Some {a. (a, c) \<in> set rs} else None)"
proof (induction rs rule: rev_induct)
  case Nil
  show ?case by simp
next
  case (snoc r rs)
  obtain a b where r: "r = (a, b)" by (cases r)
  show ?case
    unfolding r by (simp add: snoc.IH) (auto simp: fun_eq_iff image_iff)
qed

lemma true_community_helper_index:
  assumes "true_community_helper fp = Inr (node_to_com, com_to_nodes)"
  shows "node_to_com = map_of (rev (true_records (readlines fp)))"
    and "com_to_nodes = (\<lambda>c. if c \<in> snd ` set (true_records (readlines fp))
                           then Some {a. (a, c) \<in> set (true_records (readlines fp))}
                           else None)"
  using true_community_loop_records [OF assms [unfolded true_community_helper_def]]
  by (simp_all add: fold_add_assignment)

lemma map_of_rev_seen: "(map_of (rev rs) q = None) = (q \<notin> fst ` set rs)"
  by (simp add: map_of_eq_None_iff)

lemma map_of_rev_single:
  "single_community rs \<Longrightarrow> (map_of (rev rs) n = Some c) = ((n, c) \<in> set rs)"
proof
  assume "map_of (rev rs) n = Some c"
  then show "(n, c) \<in> set rs" by (auto dest: map_of_SomeD)
next
  assume s: "single_community rs" and m: "(n, c) \<in> set rs"
  then have "n \<in> fst ` set (rev rs)" by force
  then obtain c' where c': "map_of (rev rs) n = Some c'"
    by (cases "map_of (rev rs) n") (auto simp: map_of_eq_None_iff)
  then have "(n, c') \<in> set rs" by (auto dest: map_of_SomeD)
  with s m have "c' = c" by (auto simp: single_community_def)
  with c' show "map_of (rev rs) n = Some c" by simp
qed

text \<open>
  Claim C5. On an index built by \<open>true_community_helper\<close>, a query node that was never
  seen makes \<open>get_true_community\<close> raise an error of the \<^verbatim>\<open>LookupError\<close> kind (no
  community, empty or not, is returned); a node that was seen has a community id \<open>c\<close>,
  and the result is the set stored under \<open>c\<close>, which holds every node listed under \<open>c\<close>.
\<close>

theorem get_true_community_lookup:
  assumes "true_community_helper fp = Inr (node_to_com, com_to_nodes)"
  shows "(q \<notin> fst ` set (true_records (readlines fp)) \<longrightarrow>
            (\<exists>e. get_true_community node_to_com com_to_nodes q = Inl e \<and> is_LookupError e)) \<and>
         (q \<in> fst ` set (true_records (readlines fp)) \<longrightarrow>
            (\<exists>c. node_to_com q = Some c \<and>
                 com_to_nodes c = Some {a. (a, c) \<in> set (true_records (readlines fp))} \<and>
                 get_true_community node_to_com com_to_nodes q =
                   Inr {a. (a, c) \<in> set (true_records (readlines fp))}))"
proof (intro conjI impI)
  let ?rs = "true_records (readlines fp)"
  note ix = true_community_helper_index [OF assms]
  {
    assume "q \<notin> fst ` set ?rs"
    then have "node_to_com q = None" by (simp add: ix(1) map_of_rev_seen)
    then show "\<exists>e. get_true_community node_to_com com_to_nodes q = Inl e \<and> is_LookupError e"
      by (simp add: get_true_community_def is_LookupError_def)
  }
  {
    assume "q \<in> fst ` set ?rs"
    then obtain c where c: "node_to_com q = Some c"
      by (cases "node_to_com q") (auto simp: ix(1) map_of_rev_seen)
    then have "(q, c) \<in> set ?rs" by (auto simp: ix(1) dest: map_of_SomeD)
    then have "c \<in> snd ` set ?rs" by force
    then have "com_to_nodes c = Some {a. (a, c) \<in> set ?rs}" by (simp add: ix(2))
    with c show "\<exists>c. node_to_com q = Some c \<and>
                 com_to_nodes c = Some {a. (a, c) \<in> set ?rs} \<and>
                 get_true_community node_to_com com_to_nodes q = Inr {a. (a, c) \<in> set ?rs}"
      by (simp add: get_true_community_def)
  }
qed

theorem get_true_community_lookup_witness:
  "true_community_helper truth_file =
     Inr ([1 \<mapsto> 5, 2 \<mapsto> 5, 3 \<mapsto> 7], [5 \<mapsto> {1, 2}, 7 \<mapsto> {3}]) \<and>
   4 \<notin> fst ` set (true_records (readlines truth_file)) \<and>
   get_true_community [1 \<mapsto> 5, 2 \<mapsto> 5, 3 \<mapsto> 7] [5 \<mapsto> {1, 2}, 7 \<mapsto> {3}] 4 = Inl KeyError \<and>
   is_LookupError KeyError \<and>
   1 \<in> fst ` set (true_records (readlines truth_file)) \<and>
   get_true_community [1 \<mapsto> 5, 2 \<mapsto> 5, 3 \<mapsto> 7] [5 \<mapsto> {1, 2}, 7 \<mapsto> {3}] 1 = Inr {1, 2}"
proof -
  note h = true_community_helper_truth_file
  from h get_true_community_lookup [OF h, of 4] get_true_community_lookup [OF h, of 1]
  show ?thesis
    by (simp add: true_records_truth_file get_true_community_def is_LookupError_def)
qed

text \<open>
  Claim C6, as amended. For every ground-truth file that is accepted and lists no node
  under two different community ids, node \<open>n\<close> is a member of \<open>com_to_nodes[c]\<close> exactly
  when \<open>node_to_com[n] = c\<close>, and the size of \<open>com_to_nodes[c]\<close> is the number of nodes
  whose entry is \<open>c\<close>. The claim as stated, for every accepted file, fails on the file
  with the lines \<^verbatim>\<open>1<TAB>5\<close>, \<^verbatim>\<open>1<TAB>7\<close>: node 1 stays in the set of id 5 while its
  entry is 7.
\<close>

theorem index_invariant:
  assumes "true_community_helper fp = Inr (node_to_com, com_to_nodes)"
      and "single_community (true_records (readlines fp))"
  shows "(\<forall>n c. (\<exists>s. com_to_nodes c = Some s \<and> n \<in> s) \<longleftrightarrow> node_to_com n = Some c) \<and>
         (\<forall>c s. com_to_nodes c = Some s \<longrightarrow> card s = card {n. node_to_com n = Some c})"
proof -
  let ?rs = "true_records (readlines fp)"
  note ix = true_community_helper_index [OF assms(1)]
  have n2c: "(node_to_com n = Some c) = ((n, c) \<in> set ?rs)" for n c
    by (simp add: ix(1) map_of_rev_single [OF assms(2)])
  have c2n: "(com_to_nodes c = Some s) = (c \<in> snd ` set ?rs \<and> s = {a. (a, c) \<in> set ?rs})"
    for c s
    by (auto simp: ix(2))
  show ?thesis
    unfolding n2c c2n by force
qed

theorem index_invariant_witness:
  "true_community_helper truth_file =
     Inr ([1 \<mapsto> 5, 2 \<mapsto> 5, 3 \<mapsto> 7], [5 \<mapsto> {1, 2}, 7 \<mapsto> {3}]) \<and>
   single_community (true_records (readlines truth_file)) \<and>
   (\<forall>(n :: int) (c :: int). (\<exists>s. [5 \<mapsto> {1, 2}, 7 \<mapsto> {3}] c = Some s \<and> n \<in> s) \<longleftrightarrow>
           [1 \<mapsto> 5, 2 \<mapsto> 5, 3 \<mapsto> 7] n = Some c) \<and>
   card {n :: int. [1 \<mapsto> 5, 2 \<mapsto> 5, 3 \<mapsto> 7] n = Some (5 :: int)} = 2"
proof -
  note h = true_community_helper_truth_file
  have s: "single_community (true_records (readlines truth_file))"
    by (simp add: true_records_truth_file single_community_def)
  note inv = index_invariant [OF h s]
  have "[5 \<mapsto> {1, 2}, 7 \<mapsto> {3 :: int}] (5 :: int) = Some {1, 2}"
    by simp
  with inv have "card {1, 2 :: int} =
      card {n :: int. [1 \<mapsto> 5, 2 \<mapsto> 5, 3 \<mapsto> 7] n = Some (5 :: int)}"
    by blast
  then have "card {n :: int. [1 \<mapsto> 5, 2 \<mapsto> 5, 3 \<mapsto> 7] n = Some (5 :: int)} = 2"
    by simp
  with h s inv show ?thesis by blast
qed

text \<open>The claim C6 as stated, for every accepted file, fails on the file with the lines
  \<^verbatim>\<open>1<TAB>5\<close>, \<^verbatim>\<open>1<TAB>7\<close>: node 1 stays in the set of id 5 while its entry is 7.\<close>

theorem index_invariant_counterexample:
  "true_community_helper relisted_file = Inr ([1 \<mapsto> 7], [5 \<mapsto> {1}, 7 \<mapsto> {1}]) \<and>
   1 \<in> the ([5 \<mapsto> {1}, 7 \<mapsto> {1 :: int}] (5 :: int)) \<and>
   [1 \<mapsto> 7] (1 :: int) \<noteq> Some (5 :: int)"
  by (simp add: truth_eval)

end
